theory Spec2Isabelle
  imports Complex_Main
begin

section \<open>JavaScript string and array primitives used by the editor view\<close>

text \<open>
  The view code calls \<open>String.prototype.split\<close>, \<open>indexOf\<close>, \<open>lastIndexOf\<close> and
  \<open>substring\<close>. They are modelled on \<open>string\<close> (a list of characters) with the
  results ECMAScript gives them: \<open>indexOf\<close> and \<open>lastIndexOf\<close> answer \<open>-1\<close> when the
  character is absent, \<open>substring\<close> clamps both indices to \<open>[0, length]\<close> and swaps them
  when the first is larger, and \<open>split\<close> with a one-character separator always returns
  at least one piece (the empty string splits into one empty piece).
\<close>

fun split :: "string \<Rightarrow> char \<Rightarrow> string list" where
  "split [] c = [ [] ]"
| "split (x # xs) c =
     (if x = c then [] # split xs c
      else (case split xs c of
              [] \<Rightarrow> [ [x] ]
            | p # ps \<Rightarrow> (x # p) # ps))"

definition indexOf :: "string \<Rightarrow> char \<Rightarrow> int" where
  "indexOf s c =
     (if c \<in> set s then int (length (takeWhile (\<lambda>x. x \<noteq> c) s)) else - 1)"

definition lastIndexOf :: "string \<Rightarrow> char \<Rightarrow> int" where
  "lastIndexOf s c =
     (if c \<in> set s
      then int (length s) - 1 - int (length (takeWhile (\<lambda>x. x \<noteq> c) (rev s)))
      else - 1)"

definition substring :: "string \<Rightarrow> int \<Rightarrow> int \<Rightarrow> string" where
  "substring s start end' =
     (let n = int (length s);
          a = max 0 (min n start);
          b = max 0 (min n end');
          lo = min a b;
          hi = max a b
      in take (nat (hi - lo)) (drop (nat lo) s))"

text \<open>\<open>s.substring(start)\<close>: the end index defaults to the length of the string.\<close>

definition substringFrom :: "string \<Rightarrow> int \<Rightarrow> string" where
  "substringFrom s start = substring s start (int (length s))"

section \<open>Data model of the external API view\<close>

text \<open>
  The failures of the code: calling a method on \<open>undefined\<close> raises a \<open>TypeError\<close>;
  a request that the channel to the query server cannot deliver rejects with a
  transport failure.
\<close>

datatype error = TypeError | TransportFailure

text \<open>
  \<open>ExternalApiUsage\<close> as the view builds it. \<open>Call\<close> is declared outside the view and is
  only stored, so it is the type parameter \<open>'call\<close>.
\<close>

record 'call ExternalApiUsage =
  externalApiInfo :: string
  packageName :: string
  typeName :: string
  methodName :: string
  methodParameters :: string
  supported :: bool
  usages :: "'call list"

text \<open>
  One tuple of the decoded result. The view reads its first three cells and casts them:
  \<open>tuple[0] as string\<close>, \<open>tuple[1] as boolean\<close>, \<open>tuple[2] as Call\<close>.
\<close>

record 'call ApiTuple =
  apiInfo :: string
  apiSupported :: bool
  apiUsage :: "'call"

text \<open>
  \<open>DecodedBqrsChunk\<close>: ordered columns with their kind, ordered tuples, and the offset
  of the next page when there is one. The tuple type is a parameter: the view reads
  tuples as \<open>ApiTuple\<close>s, the CSV export as lists of cells.
\<close>

record Column =
  kind :: string

record 'tuple DecodedBqrsChunk =
  columns :: "Column list"
  tuples :: "'tuple list"
  next' :: "nat option"

section \<open>The usage aggregation (\<open>methods\<close> of \<open>ExternalApi\<close>)\<close>

text \<open>
  The part of the \<open>forEach\<close> body that takes the signature apart. Destructuring
  \<open>externalApiInfo.split("#")\<close> binds \<open>packageWithType\<close> to the first piece and
  \<open>methodDeclaration\<close> to the second; without a second piece \<open>methodDeclaration\<close> is
  \<open>undefined\<close> and \<open>methodDeclaration.substring\<close> raises.
\<close>

definition parseExternalApiInfo :: "string \<Rightarrow> error + (string \<times> string \<times> string \<times> string)" where
  "parseExternalApiInfo info =
     (case split info (CHR ''#'') of
        packageWithType # methodDeclaration # _ \<Rightarrow>
          Inr (substring packageWithType 0 (lastIndexOf packageWithType (CHR ''.'')),
               substringFrom packageWithType (lastIndexOf packageWithType (CHR ''.'') + 1),
               substring methodDeclaration 0 (indexOf methodDeclaration (CHR ''('')),
               substringFrom methodDeclaration (indexOf methodDeclaration (CHR ''('')))
      | _ \<Rightarrow> Inl TypeError)"

text \<open>
  \<open>methodsByApiName\<close> is a JavaScript \<open>Map\<close>, which keeps its keys in insertion order:
  an association list. \<open>set\<close> on an absent key appends; \<open>usages.push\<close> on the object
  returned by \<open>get\<close> changes the entry where it stands.
\<close>

type_synonym 'call methodsMap = "(string \<times> 'call ExternalApiUsage) list"

definition has :: "'call methodsMap \<Rightarrow> string \<Rightarrow> bool" where
  "has m k = (k \<in> fst ` set m)"

definition set' :: "'call methodsMap \<Rightarrow> string \<Rightarrow> 'call ExternalApiUsage \<Rightarrow> 'call methodsMap" where
  "set' m k v = (if has m k then map (\<lambda>(k', v'). if k' = k then (k', v) else (k', v')) m
                 else m @ [(k, v)])"

definition pushUsage :: "'call methodsMap \<Rightarrow> string \<Rightarrow> 'call \<Rightarrow> 'call methodsMap" where
  "pushUsage m k u =
     map (\<lambda>(k', v'). if k' = k then (k', v'\<lparr>usages := usages v' @ [u]\<rparr>) else (k', v')) m"

text \<open>The body of \<open>results?.tuples.forEach((tuple) => ...)\<close> for one tuple.\<close>

definition addTuple :: "'call ApiTuple \<Rightarrow> 'call methodsMap \<Rightarrow> error + 'call methodsMap" where
  "addTuple tuple methodsByApiName =
     (case parseExternalApiInfo (apiInfo tuple) of
        Inl e \<Rightarrow> Inl e
      | Inr (pkg, ty, mname, mparams) \<Rightarrow>
          (let m1 = (if \<not> has methodsByApiName (apiInfo tuple)
                     then set' methodsByApiName (apiInfo tuple)
                            \<lparr>externalApiInfo = apiInfo tuple,
                             packageName = pkg,
                             typeName = ty,
                             methodName = mname,
                             methodParameters = mparams,
                             supported = apiSupported tuple,
                             usages = []\<rparr>
                     else methodsByApiName)
           in Inr (pushUsage m1 (apiInfo tuple) (apiUsage tuple))))"

fun forEach :: "'call ApiTuple list \<Rightarrow> 'call methodsMap \<Rightarrow> error + 'call methodsMap" where
  "forEach [] m = Inr m"
| "forEach (t # ts) m =
     (case addTuple t m of
        Inl e \<Rightarrow> Inl e
      | Inr m' \<Rightarrow> forEach ts m')"

text \<open>
  \<open>externalApiUsages.sort((a, b) => b.usages.length - a.usages.length)\<close>:
  \<open>Array.prototype.sort\<close> is stable, and the comparator orders by the key
  \<open>- usages.length\<close>; \<open>sort_key\<close> is the stable sort by a key.
\<close>

definition sortByUsages :: "'call ExternalApiUsage list \<Rightarrow> 'call ExternalApiUsage list" where
  "sortByUsages xs = sort_key (\<lambda>a. - int (length (usages a))) xs"

text \<open>
  \<open>methods\<close>: \<open>results\<close> may be \<open>undefined\<close> (\<open>results?.tuples\<close>), and then the map
  stays empty.
\<close>

definition methods :: "'call ApiTuple DecodedBqrsChunk option \<Rightarrow> error + 'call ExternalApiUsage list" where
  "methods results =
     (case (case results of None \<Rightarrow> Inr [] | Some r \<Rightarrow> forEach (tuples r) []) of
        Inl e \<Rightarrow> Inl e
      | Inr methodsByApiName \<Rightarrow> Inr (sortByUsages (map snd methodsByApiName)))"

subsection \<open>The grouping, stated on the input\<close>

text \<open>
  What the aggregation is meant to compute, written on the list of tuples alone: the
  signatures in the order of their first occurrence, and for a signature the tuples that
  carry it, in input order.
\<close>

fun firstOccurrences :: "'a list \<Rightarrow> 'a list" where
  "firstOccurrences [] = []"
| "firstOccurrences (x # xs) = x # filter (\<lambda>y. y \<noteq> x) (firstOccurrences xs)"

definition occurrences :: "'call ApiTuple list \<Rightarrow> string \<Rightarrow> 'call ApiTuple list" where
  "occurrences ts k = filter (\<lambda>t. apiInfo t = k) ts"

text \<open>
  The record \<open>v\<close> stored under key \<open>k\<close> is the group of \<open>k\<close> in \<open>ts\<close>: it carries
  the calls of all tuples with that signature in order, the flag of the first of
  them, and the parts of the signature.
\<close>

definition groupOf :: "'call ApiTuple list \<Rightarrow> string \<Rightarrow> 'call ExternalApiUsage \<Rightarrow> bool" where
  "groupOf ts k v \<longleftrightarrow>
     externalApiInfo v = k \<and>
     usages v = map apiUsage (occurrences ts k) \<and>
     (\<exists>t. find (\<lambda>t. apiInfo t = k) ts = Some t \<and> supported v = apiSupported t) \<and>
     parseExternalApiInfo k =
       Inr (packageName v, typeName v, methodName v, methodParameters v)"

definition groupedUpTo :: "'call ApiTuple list \<Rightarrow> 'call methodsMap \<Rightarrow> bool" where
  "groupedUpTo ts m \<longleftrightarrow>
     map fst m = firstOccurrences (map apiInfo ts) \<and>
     (\<forall>(k, v) \<in> set m. groupOf ts k v)"

subsection \<open>Sample inputs\<close>

definition exampleResults :: "nat ApiTuple DecodedBqrsChunk" where
  "exampleResults =
     \<lparr>columns = [],
      tuples = [\<lparr>apiInfo = ''a.B#m()'', apiSupported = True, apiUsage = 1\<rparr>,
                \<lparr>apiInfo = ''a.C#m()'', apiSupported = True, apiUsage = 2\<rparr>,
                \<lparr>apiInfo = ''a.C#m()'', apiSupported = False, apiUsage = 3\<rparr>,
                \<lparr>apiInfo = ''a.D#m()'', apiSupported = False, apiUsage = 4\<rparr>],
      next' = None\<rparr>"

definition oneTuple :: "string \<Rightarrow> nat ApiTuple DecodedBqrsChunk" where
  "oneTuple info =
     \<lparr>columns = [], tuples = [\<lparr>apiInfo = info, apiSupported = True, apiUsage = 7\<rparr>],
      next' = None\<rparr>"

definition usageOf :: "string \<Rightarrow> string \<Rightarrow> string \<Rightarrow> string \<Rightarrow> string \<Rightarrow> nat ExternalApiUsage" where
  "usageOf info pkg ty mn mp =
     \<lparr>externalApiInfo = info, packageName = pkg, typeName = ty, methodName = mn,
      methodParameters = mp, supported = True, usages = [7]\<rparr>"

section \<open>Support percentages\<close>

text \<open>
  \<open>supportedPercentage\<close> and \<open>unsupportedPercentage\<close> divide two array lengths and
  multiply by 100, with no test of the divisor. A JavaScript division never raises:
  \<open>0 / 0\<close> is \<open>NaN\<close>, a positive number over zero is \<open>Infinity\<close>. A finite result is the
  double nearest to the exact value; that rounding is the parameter \<open>fl\<close> of the
  arithmetic, so nothing below depends on how doubles round.
\<close>

datatype number = NaN | Infinity | Finite rat

definition divide :: "(rat \<Rightarrow> rat) \<Rightarrow> nat \<Rightarrow> nat \<Rightarrow> number" where
  "divide fl a b =
     (if b = 0 then (if a = 0 then NaN else Infinity)
      else Finite (fl (of_nat a / of_nat b)))"

definition times :: "(rat \<Rightarrow> rat) \<Rightarrow> number \<Rightarrow> nat \<Rightarrow> number" where
  "times fl x k =
     (case x of
        NaN \<Rightarrow> NaN
      | Infinity \<Rightarrow> (if k = 0 then NaN else Infinity)
      | Finite q \<Rightarrow> Finite (fl (q * of_nat k)))"

definition supportedPercentage :: "(rat \<Rightarrow> rat) \<Rightarrow> 'call ExternalApiUsage list \<Rightarrow> number" where
  "supportedPercentage fl ms =
     times fl (divide fl (length (filter (\<lambda>m. supported m) ms)) (length ms)) 100"

definition unsupportedPercentage :: "(rat \<Rightarrow> rat) \<Rightarrow> 'call ExternalApiUsage list \<Rightarrow> number" where
  "unsupportedPercentage fl ms =
     times fl (divide fl (length (filter (\<lambda>m. \<not> supported m) ms)) (length ms)) 100"

text \<open>
  The view renders the two percentages only inside \<open>methods.length > 0 && (...)\<close>;
  \<open>None\<close> stands for the statistics block not being rendered.
\<close>

definition renderedStats ::
  "(rat \<Rightarrow> rat) \<Rightarrow> 'call ExternalApiUsage list \<Rightarrow> (number \<times> number) option" where
  "renderedStats fl ms =
     (if length ms > 0 then Some (supportedPercentage fl ms, unsupportedPercentage fl ms)
      else None)"

text \<open>A usage list with two supported methods out of three.\<close>

definition twoOfThree :: "nat ExternalApiUsage list" where
  "twoOfThree =
     [usageOf ''a.B#m()'' ''a'' ''B'' ''m'' ''()'',
      (usageOf ''a.C#m()'' ''a'' ''C'' ''m'' ''()'')\<lparr>supported := False\<rparr>,
      usageOf ''a.D#m()'' ''a'' ''D'' ''m'' ''()'']"

section \<open>The modeled-method store of the view\<close>

text \<open>
  Modelled from the spec: the type \<open>ModeledMethod\<close>, which is declared outside the view.
  It is a record with the fields \<open>type\<close>, \<open>input\<close> and \<open>output\<close> of the spec's data
  model (the view itself reads \<open>type\<close> only).
\<close>

record ModeledMethod =
  type :: string
  input :: string
  output' :: string

text \<open>
  The \<open>setExistingYamlData\<close> handler: the new state is the object
  \<open>{...existingModeledMethods, ...oldModeledMethods}\<close>. In an object spread a later
  property replaces an earlier one with the same key, so the spread is \<open>++\<close> on maps.
  \<open>loadDataExtensionYaml\<close> is declared outside the view and is a parameter.
\<close>

definition setExistingYamlData ::
  "('yaml \<Rightarrow> (string \<rightharpoonup> 'model)) \<Rightarrow> 'yaml \<Rightarrow> (string \<rightharpoonup> 'model) \<Rightarrow> (string \<rightharpoonup> 'model)" where
  "setExistingYamlData loadDataExtensionYaml data oldModeledMethods =
     (let existingModeledMethods = loadDataExtensionYaml data
      in existingModeledMethods ++ oldModeledMethods)"

text \<open>
  The \<open>addModeledMethods\<close> handler: the old entries whose type is not \<open>"none"\<close> are
  spread over the incoming ones.
\<close>

definition addModeledMethods ::
  "(string \<rightharpoonup> ModeledMethod) \<Rightarrow> (string \<rightharpoonup> ModeledMethod) \<Rightarrow> (string \<rightharpoonup> ModeledMethod)" where
  "addModeledMethods modeledMethods oldModeledMethods =
     (let filteredOldModeledMethods =
            (\<lambda>k. case oldModeledMethods k of
                   None \<Rightarrow> None
                 | Some v \<Rightarrow> if type v \<noteq> ''none'' then Some v else None)
      in modeledMethods ++ filteredOldModeledMethods)"

text \<open>A persisted document and a local state that both know the signature \<open>S\<close>.\<close>

definition persistedSink :: "unit \<Rightarrow> (string \<rightharpoonup> ModeledMethod)" where
  "persistedSink d =
     [''S'' \<mapsto> \<lparr>type = ''sink'', input = ''Argument[0]'', output' = []\<rparr>,
      ''T'' \<mapsto> \<lparr>type = ''source'', input = [], output' = ''ReturnValue''\<rparr>]"

definition localSummary :: "string \<rightharpoonup> ModeledMethod" where
  "localSummary =
     [''S'' \<mapsto> \<lparr>type = ''summary'', input = ''Argument[0]'', output' = ''ReturnValue''\<rparr>]"

section \<open>Interpreted results\<close>

text \<open>
  \<open>QueryMetadata\<close>: the optional \<open>kind\<close> of the query (the field is primed, \<open>kind\<close>
  being the field of \<open>Column\<close>). \<open>metadataKind\<close> is \<open>metadata?.kind\<close>.
\<close>

record QueryMetadata =
  kind' :: "string option"

definition metadataKind :: "QueryMetadata option \<Rightarrow> string option" where
  "metadataKind metadata = (case metadata of None \<Rightarrow> None | Some md \<Rightarrow> kind' md)"

text \<open>
  Modelled from the spec: \<open>canHaveInterpretedResults\<close>, whose body is not among the
  sources (only \<open>run-queries.test.ts\<close> calls it). The gate is the one of the spec: no
  metadata file, or no kind, gives false; kind \<open>"graph"\<close> gives the canary flag. For the
  remaining kinds the test fixes one more point, which the model follows: with the
  metadata file present and the canary unset, kind \<open>"table"\<close> is expected to give false
  (the test's case "4"), kind \<open>"problem"\<close> to give true (its case "1").
\<close>

definition canHaveInterpretedResults :: "QueryMetadata option \<Rightarrow> bool \<Rightarrow> bool \<Rightarrow> bool" where
  "canHaveInterpretedResults metadata databaseHasMetadataFile isCanary =
     (if \<not> databaseHasMetadataFile then False
      else (case metadataKind metadata of
              None \<Rightarrow> False
            | Some k \<Rightarrow> if k = ''graph'' then isCanary else k \<noteq> ''table''))"

text \<open>
  The six expectations of the test "should check if interpreted results can be
  created", in its order: metadata, \<open>databaseHasMetadataFile\<close>, what \<open>isCanary\<close> returns,
  and the expected result.
\<close>

definition interpretedResultsExpectations :: "(QueryMetadata option \<times> bool \<times> bool \<times> bool) list" where
  "interpretedResultsExpectations =
     [(Some \<lparr>kind' = Some ''problem''\<rparr>, True, False, True),
      (Some \<lparr>kind' = Some ''problem''\<rparr>, False, False, False),
      (Some \<lparr>kind' = None\<rparr>, True, False, False),
      (Some \<lparr>kind' = Some ''table''\<rparr>, True, False, False),
      (Some \<lparr>kind' = Some ''graph''\<rparr>, True, False, False),
      (Some \<lparr>kind' = Some ''graph''\<rparr>, True, True, True)]"

section \<open>The query server client\<close>

text \<open>
  The messages sent to the query server, as the test's expectations on \<open>sendRequest\<close>
  spell them out: the request type, its parameters, the cancellation token and the
  progress sink.
\<close>

datatype Severity = ERROR | WARNING

record CompilationMessage =
  message :: string
  severity :: Severity

record CompilationOptions =
  computeNoLocationUrls :: bool
  failOnWarnings :: bool
  fastCompilation :: bool
  includeDilInQlo :: bool
  localChecking :: bool
  noComputeGetUrl :: bool
  noComputeToString :: bool
  computeDefaultStrings :: bool
  emitDebugInfo :: bool

record QlProgram =
  dbschemePath :: string
  libraryPath :: "string list"
  queryPath :: string

text \<open>\<open>target: { query: {} }\<close>: compiling the whole query.\<close>

datatype CompilationTarget = Query

record CompileQueryParams =
  compilationOptions :: CompilationOptions
  timeoutSecs :: nat
  queryToCheck :: QlProgram
  resultPath :: string
  target :: CompilationTarget

record Database =
  dbDir :: string
  workingSet :: string

datatype RequestType = compileQuery | registerDatabases | deregisterDatabases

datatype RequestParams = CompileParams CompileQueryParams | DatabasesParams "Database list"

record Request =
  requestType :: RequestType
  params :: RequestParams
  token :: string
  progress :: string

record Response =
  messages :: "CompilationMessage list"

text \<open>
  \<open>QueryServerClient\<close>: its configured timeout, the capability of the CLI, the peer that
  answers a request or fails to, and the requests sent so far (what the test's
  \<open>jest.fn()\<close> records).
\<close>

record QueryServerClient =
  configTimeoutSecs :: nat
  supportsDatabaseRegistration :: bool
  backend :: "Request \<Rightarrow> error + Response"
  sent :: "Request list"

definition sendRequest ::
  "QueryServerClient \<Rightarrow> RequestType \<Rightarrow> RequestParams \<Rightarrow> string \<Rightarrow> string
     \<Rightarrow> (error + Response) \<times> QueryServerClient" where
  "sendRequest qs ty ps tok prog =
     (let r = \<lparr>requestType = ty, params = ps, token = tok, progress = prog\<rparr>
      in (backend qs r, qs\<lparr>sent := sent qs @ [r]\<rparr>))"

record QueryInProgress =
  querySaveDir :: string
  compiledQueryPath :: string
  dbItemPath :: string
  databaseHasMetadataFile :: bool
  metadata :: "QueryMetadata option"

text \<open>
  Modelled from the spec: \<open>compile\<close> of \<open>QueryInProgress\<close>, whose body is not among the
  sources. It sends one \<open>compileQuery\<close> request with the token and the progress sink;
  a transport failure propagates. The parameters are those the test expects
  \<open>sendRequest\<close> to be called with. Of the answer it returns the messages of severity
  \<open>ERROR\<close>, in their order: the test's peer answers with an error and a warning, and the
  test expects the result to equal the list of the error alone.
\<close>

definition compile ::
  "QueryInProgress \<Rightarrow> QueryServerClient \<Rightarrow> QlProgram \<Rightarrow> string \<Rightarrow> string
     \<Rightarrow> (error + CompilationMessage list) \<times> QueryServerClient" where
  "compile info qs program prog tok =
     (let ps = \<lparr>compilationOptions =
                   \<lparr>computeNoLocationUrls = True,
                    failOnWarnings = False,
                    fastCompilation = False,
                    includeDilInQlo = True,
                    localChecking = False,
                    noComputeGetUrl = False,
                    noComputeToString = False,
                    computeDefaultStrings = True,
                    emitDebugInfo = True\<rparr>,
                 timeoutSecs = configTimeoutSecs qs,
                 queryToCheck = program,
                 resultPath = compiledQueryPath info,
                 target = Query\<rparr>;
          (res, qs') = sendRequest qs compileQuery (CompileParams ps) tok prog
      in (case res of
            Inl e \<Rightarrow> Inl e
          | Inr compiled \<Rightarrow> Inr (filter (\<lambda>msg. severity msg = ERROR) (messages compiled)),
          qs'))"

text \<open>
  \<open>DatabaseItem\<close>: of the database the runner reads \<open>contents.datasetUri.fsPath\<close> only.
\<close>

record DatabaseItem =
  datasetUri :: string

text \<open>
  Modelled from the spec: \<open>registerDatabase\<close> and \<open>deregisterDatabase\<close> of
  \<open>LegacyQueryRunner\<close>, whose bodies are not among the sources. Without the capability
  they return at once; with it they send one request that names the dataset path with
  the working set \<open>"default"\<close>.
\<close>

definition registerDatabase ::
  "QueryServerClient \<Rightarrow> string \<Rightarrow> string \<Rightarrow> DatabaseItem \<Rightarrow> (error + unit) \<times> QueryServerClient" where
  "registerDatabase qs prog tok dbItem =
     (if supportsDatabaseRegistration qs
      then (let databases = [\<lparr>dbDir = datasetUri dbItem, workingSet = ''default''\<rparr>];
                (res, qs') = sendRequest qs registerDatabases (DatabasesParams databases) tok prog
            in (case res of Inl e \<Rightarrow> Inl e | Inr _ \<Rightarrow> Inr (), qs'))
      else (Inr (), qs))"

text \<open>
  Modelled from the spec: \<open>deregisterDatabase\<close>, the same gate with the request type
  \<open>deregisterDatabases\<close>.
\<close>

definition deregisterDatabase ::
  "QueryServerClient \<Rightarrow> string \<Rightarrow> string \<Rightarrow> DatabaseItem \<Rightarrow> (error + unit) \<times> QueryServerClient" where
  "deregisterDatabase qs prog tok dbItem =
     (if supportsDatabaseRegistration qs
      then (let databases = [\<lparr>dbDir = datasetUri dbItem, workingSet = ''default''\<rparr>];
                (res, qs') = sendRequest qs deregisterDatabases (DatabasesParams databases) tok prog
            in (case res of Inl e \<Rightarrow> Inl e | Inr _ \<Rightarrow> Inr (), qs'))
      else (Inr (), qs))"

text \<open>
  The test's \<open>createMockQueryServerClient\<close>: timeout 5, a peer that answers every
  request with an error message and a warning message, nothing sent yet.
\<close>

definition mockResponse :: Response where
  "mockResponse =
     \<lparr>messages = [\<lparr>message = ''err'', severity = ERROR\<rparr>,
                  \<lparr>message = ''warn'', severity = WARNING\<rparr>]\<rparr>"

definition createMockQueryServerClient :: "bool \<Rightarrow> QueryServerClient" where
  "createMockQueryServerClient registration =
     \<lparr>configTimeoutSecs = 5,
      supportsDatabaseRegistration = registration,
      backend = (\<lambda>r. Inr mockResponse),
      sent = []\<rparr>"

definition createMockQueryInfo :: QueryInProgress where
  "createMockQueryInfo =
     \<lparr>querySaveDir = ''save-dir0'',
      compiledQueryPath = ''save-dir0/compiledQuery.qlo'',
      dbItemPath = ''/abc'',
      databaseHasMetadataFile = True,
      metadata = Some \<lparr>kind' = Some ''problem''\<rparr>\<rparr>"

definition mockQlProgram :: QlProgram where
  "mockQlProgram = \<lparr>dbschemePath = [], libraryPath = [], queryPath = []\<rparr>"

section \<open>CSV export\<close>

text \<open>
  A cell of a decoded tuple: the tests export strings, booleans and numbers. A number
  is kept as the text its stringification gives (\<open>123\<close>, \<open>456.99\<close>): the export only
  ever turns it into text.
\<close>

datatype CellValue = StringCell string | BooleanCell bool | NumberCell string

definition stringify :: "CellValue \<Rightarrow> string" where
  "stringify v =
     (case v of
        StringCell s \<Rightarrow> s
      | BooleanCell b \<Rightarrow> (if b then ''true'' else ''false'')
      | NumberCell t \<Rightarrow> t)"

text \<open>The double quote and the line feed.\<close>

definition dquote :: char where
  "dquote = CHR 0x22"

definition newline :: char where
  "newline = CHR 0x0A"

definition replaceAll :: "string \<Rightarrow> char \<Rightarrow> string \<Rightarrow> string" where
  "replaceAll s c r = concat (map (\<lambda>x. if x = c then r else [x]) s)"

fun join :: "string list \<Rightarrow> string \<Rightarrow> string" where
  "join [] sep = []"
| "join [x] sep = x"
| "join (x # y # ys) sep = x @ sep @ join (y # ys) sep"

text \<open>
  Modelled from the spec: the cell and row writer of \<open>exportCsvResults\<close>, whose body is
  not among the sources. A cell of a column of kind \<open>String\<close> is written between double
  quotes, a string value with each double quote doubled; a cell of any other column is
  written as its stringification. The column of a cell is the one at its index; a cell
  beyond the last column has no column to read the kind of. A row is its cells joined
  by commas, ended by a line feed.
\<close>

definition formatCell :: "Column \<Rightarrow> CellValue \<Rightarrow> string" where
  "formatCell col v =
     (if kind col = ''String''
      then [dquote] @
           (case v of
              StringCell s \<Rightarrow> replaceAll s dquote [dquote, dquote]
            | _ \<Rightarrow> stringify v) @
           [dquote]
      else stringify v)"

text \<open>
  Modelled from the spec: the cells of one tuple, each with the column at its index.
\<close>

fun formatCells :: "Column list \<Rightarrow> CellValue list \<Rightarrow> error + string list" where
  "formatCells cols [] = Inr []"
| "formatCells [] (v # vs) = Inl TypeError"
| "formatCells (c # cols) (v # vs) =
     (case formatCells cols vs of
        Inl e \<Rightarrow> Inl e
      | Inr cells \<Rightarrow> Inr (formatCell c v # cells))"

text \<open>
  Modelled from the spec: one row, its cells joined by commas and ended by a line feed.
\<close>

definition formatRow :: "Column list \<Rightarrow> CellValue list \<Rightarrow> error + string" where
  "formatRow cols tuple =
     (case formatCells cols tuple of
        Inl e \<Rightarrow> Inl e
      | Inr cells \<Rightarrow> Inr (join cells '','' @ [newline]))"

text \<open>
  Modelled from the spec: the rows of one page, one after the other.
\<close>

fun formatRows :: "Column list \<Rightarrow> CellValue list list \<Rightarrow> error + string" where
  "formatRows cols [] = Inr []"
| "formatRows cols (t # ts) =
     (case formatRow cols t of
        Inl e \<Rightarrow> Inl e
      | Inr row \<Rightarrow> (case formatRows cols ts of
                      Inl e \<Rightarrow> Inl e
                    | Inr rest \<Rightarrow> Inr (row @ rest)))"

text \<open>
  \<open>CodeQLCliServer\<close> as the export uses it: \<open>bqrsInfo\<close> gives the names of the result
  sets, \<open>bqrsDecode\<close> one page of a result set from an offset.
\<close>

record CodeQLCliServer =
  bqrsInfo :: "string list"
  bqrsDecode :: "string \<Rightarrow> nat \<Rightarrow> CellValue list DecodedBqrsChunk"

text \<open>
  Modelled from the spec: the choice of the result set (the canonical select result set
  if present, else the first one; none when there is no result set). The name
  \<open>SELECT_QUERY_NAME\<close> is declared outside the sources and is a parameter.
\<close>

definition chooseResultSet :: "string list \<Rightarrow> string \<Rightarrow> string option" where
  "chooseResultSet resultSets selectQueryName =
     (case resultSets of
        [] \<Rightarrow> None
      | r # rs \<Rightarrow> if selectQueryName \<in> set resultSets then Some selectQueryName else Some r)"

text \<open>
  Modelled from the spec: the page loop of \<open>exportCsvResults\<close>. It decodes a page,
  writes its rows, and goes on from the next offset while the page names one. A peer
  that names a next offset for ever keeps the loop running: the result \<open>None\<close>.
\<close>

partial_function (option) decodePages ::
  "CodeQLCliServer \<Rightarrow> string \<Rightarrow> nat \<Rightarrow> string \<Rightarrow> (error + string) option" where
  "decodePages cliServer resultSet offset out =
     (let chunk = bqrsDecode cliServer resultSet offset
      in (case formatRows (columns chunk) (tuples chunk) of
            Inl e \<Rightarrow> Some (Inl e)
          | Inr rows \<Rightarrow>
              (case next' chunk of
                 None \<Rightarrow> Some (Inr (out @ rows))
               | Some nextOffset \<Rightarrow> decodePages cliServer resultSet nextOffset (out @ rows))))"

text \<open>
  Modelled from the spec: \<open>exportCsvResults\<close>. The result is the boolean the call
  resolves to and the content of the CSV file, \<open>None\<close> when no file has been written;
  without a result set it is false and nothing is written.
\<close>

definition exportCsvResults ::
  "CodeQLCliServer \<Rightarrow> string \<Rightarrow> (error + bool \<times> string option) option" where
  "exportCsvResults cliServer selectQueryName =
     (case chooseResultSet (bqrsInfo cliServer) selectQueryName of
        None \<Rightarrow> Some (Inr (False, None))
      | Some resultSet \<Rightarrow>
          (case decodePages cliServer resultSet 0 [] of
             None \<Rightarrow> None
           | Some (Inl e) \<Rightarrow> Some (Inl e)
           | Some (Inr csv) \<Rightarrow> Some (Inr (True, Some csv))))"

text \<open>
  The mock servers of the tests: one page with the columns \<open>NotString\<close>, \<open>String\<close>;
  the two pages of the test "should export csv results"; the page of the test on
  escaping; and a server without result sets.
\<close>

definition notStringStringColumns :: "Column list" where
  "notStringStringColumns = [\<lparr>kind = ''NotString''\<rparr>, \<lparr>kind = ''String''\<rparr>]"

definition abcdPage :: "nat option \<Rightarrow> CellValue list DecodedBqrsChunk" where
  "abcdPage n =
     \<lparr>columns = notStringStringColumns,
      tuples = [ [StringCell ''a'', StringCell ''b''], [StringCell ''c'', StringCell ''d''] ],
      next' = n\<rparr>"

definition secondPage :: "CellValue list DecodedBqrsChunk" where
  "secondPage =
     \<lparr>columns = [\<lparr>kind = ''String''\<rparr>, \<lparr>kind = ''NotString''\<rparr>, \<lparr>kind = ''StillNotString''\<rparr>],
      tuples = [ [StringCell ''a'', StringCell ''b'', StringCell ''c''] ],
      next' = None\<rparr>"

definition escapingPage :: "CellValue list DecodedBqrsChunk" where
  "escapingPage =
     \<lparr>columns = notStringStringColumns,
      tuples = [ [StringCell ([dquote] @ ''a'' @ [dquote]), StringCell ([dquote] @ ''b'' @ [dquote])],
                [StringCell ''c,xxx'', StringCell ''d,yyy''],
                [StringCell (''aaa '' @ [dquote] @ '' bbb''), StringCell (''ccc '' @ [dquote] @ '' ddd'')],
                [BooleanCell True, BooleanCell False],
                [NumberCell ''123'', NumberCell ''456''],
                [NumberCell ''123.98'', NumberCell ''456.99''] ],
      next' = None\<rparr>"

definition onePageServer :: "string \<Rightarrow> CellValue list DecodedBqrsChunk \<Rightarrow> CodeQLCliServer" where
  "onePageServer resultSetName page =
     \<lparr>bqrsInfo = [resultSetName, ''hucairz''], bqrsDecode = (\<lambda>resultSet offset. page)\<rparr>"

definition twoPageServer :: "string \<Rightarrow> CodeQLCliServer" where
  "twoPageServer resultSetName =
     \<lparr>bqrsInfo = [resultSetName, ''hucairz''],
      bqrsDecode = (\<lambda>resultSet offset. if offset = 0 then abcdPage (Some 1) else secondPage)\<rparr>"

definition noResultSetsServer :: CodeQLCliServer where
  "noResultSetsServer = \<lparr>bqrsInfo = [], bqrsDecode = (\<lambda>resultSet offset. abcdPage None)\<rparr>"

section \<open>Properties of the string primitives\<close>

lemma split_not_Nil: "split s c \<noteq> []"
  by (induction s) (auto split: list.splits)

lemma split_no_sep: "c \<notin> set s \<Longrightarrow> split s c = [s]"
  by (induction s) (auto split: list.splits)

lemma split_sep: "c \<notin> set p \<Longrightarrow> split (p @ c # r) c = p # split r c"
  by (induction p) (auto split: list.splits)

lemma split_two_iff: "(\<exists>a b r. split s c = a # b # r) \<longleftrightarrow> c \<in> set s"
proof
  assume "\<exists>a b r. split s c = a # b # r"
  then show "c \<in> set s" using split_no_sep[of c s] by (cases "c \<in> set s") auto
next
  assume "c \<in> set s"
  then obtain p r where s: "s = p @ c # r" and "c \<notin> set p"
    by (meson split_list_first)
  then have "split s c = p # split r c" by (simp add: split_sep)
  moreover obtain b r' where "split r c = b # r'" using split_not_Nil[of r c] by (cases "split r c") auto
  ultimately show "\<exists>a b r. split s c = a # b # r" by auto
qed

lemma takeWhile_upto: "c \<notin> set m \<Longrightarrow> takeWhile (\<lambda>x. x \<noteq> c) (m @ c # r) = m"
  by (induction m) auto

lemma indexOf_first: "c \<notin> set m \<Longrightarrow> indexOf (m @ c # r) c = int (length m)"
  by (simp add: indexOf_def takeWhile_upto)

lemma lastIndexOf_last: "c \<notin> set t \<Longrightarrow> lastIndexOf (p @ c # t) c = int (length p)"
  using takeWhile_upto[of c "rev t" "rev p"] by (simp add: lastIndexOf_def)

lemma substring_take: "k \<le> length s \<Longrightarrow> substring s 0 (int k) = take k s"
  by (simp add: substring_def Let_def)

lemma substringFrom_drop: "k \<le> length s \<Longrightarrow> substringFrom s (int k) = drop k s"
  by (simp add: substringFrom_def substring_def Let_def)

lemma parse_wf:
  assumes "CHR ''#'' \<notin> set pkg" "CHR ''#'' \<notin> set ty" "CHR ''.'' \<notin> set ty"
    "CHR ''#'' \<notin> set m" "CHR ''('' \<notin> set m" "CHR ''#'' \<notin> set ps"
  shows "parseExternalApiInfo (pkg @ ''.'' @ ty @ ''#'' @ m @ ''('' @ ps) = Inr (pkg, ty, m, ''('' @ ps)"
proof -
  have a: "CHR ''#'' \<notin> set (pkg @ ''.'' @ ty)" using assms by simp
  have b: "CHR ''#'' \<notin> set (m @ ''('' @ ps)" using assms by simp
  have "split ((pkg @ ''.'' @ ty) @ CHR ''#'' # (m @ ''('' @ ps)) (CHR ''#'') = [pkg @ ''.'' @ ty, m @ ''('' @ ps]"
    using split_sep[OF a] split_no_sep[OF b] by simp
  then have sp: "split (pkg @ ''.'' @ ty @ ''#'' @ m @ ''('' @ ps) (CHR ''#'') = [pkg @ ''.'' @ ty, m @ ''('' @ ps]"
    by simp
  have l: "lastIndexOf (pkg @ ''.'' @ ty) (CHR ''.'') = int (length pkg)"
    using lastIndexOf_last[OF assms(3), of pkg] by simp
  have i: "indexOf (m @ ''('' @ ps) (CHR ''('') = int (length m)"
    using indexOf_first[OF assms(5), of ps] by simp
  show ?thesis
    unfolding parseExternalApiInfo_def sp
    using l i substring_take[of "length pkg" "pkg @ ''.'' @ ty"]
      substringFrom_drop[of "Suc (length pkg)" "pkg @ ''.'' @ ty"]
      substring_take[of "length m" "m @ ''('' @ ps"]
      substringFrom_drop[of "length m" "m @ ''('' @ ps"]
    by (simp add: add.commute)
qed

section \<open>The invariant of the grouping loop\<close>

lemma set_firstOccurrences [simp]: "set (firstOccurrences xs) = set xs"
  by (induction xs) auto

lemma distinct_firstOccurrences [simp]: "distinct (firstOccurrences xs)"
  by (induction xs) auto

lemma firstOccurrences_snoc:
  "firstOccurrences (xs @ [x]) =
     (if x \<in> set xs then firstOccurrences xs else firstOccurrences xs @ [x])"
  by (induction xs) auto

lemma find_snoc:
  "find P (xs @ [x]) = (case find P xs of Some y \<Rightarrow> Some y | None \<Rightarrow> (if P x then Some x else None))"
  by (induction xs) auto

lemma find_None_notin: "k \<notin> f ` set xs \<Longrightarrow> find (\<lambda>t. f t = k) xs = None"
  by (induction xs) auto

lemma filter_notin: "k \<notin> f ` set xs \<Longrightarrow> filter (\<lambda>t. f t = k) xs = []"
  by (induction xs) auto

lemma map_fst_pushUsage [simp]: "map fst (pushUsage m k u) = map fst m"
  by (induction m) (auto simp: pushUsage_def)

lemma groupedUpTo_keys: "groupedUpTo ts m \<Longrightarrow> fst ` set m = apiInfo ` set ts"
proof -
  assume "groupedUpTo ts m"
  then have "map fst m = firstOccurrences (map apiInfo ts)" by (simp add: groupedUpTo_def)
  then have "set (map fst m) = set (firstOccurrences (map apiInfo ts))" by simp
  then show ?thesis by simp
qed

lemma groupOf_snoc_other:
  "groupOf ts k v \<Longrightarrow> k \<noteq> apiInfo t \<Longrightarrow> groupOf (ts @ [t]) k v"
  by (auto simp: groupOf_def occurrences_def find_snoc)

lemma groupOf_snoc_same:
  "groupOf ts k v \<Longrightarrow> k = apiInfo t \<Longrightarrow>
   groupOf (ts @ [t]) k (v\<lparr>usages := usages v @ [apiUsage t]\<rparr>)"
  by (auto simp: groupOf_def occurrences_def find_snoc)

lemma groupOf_new:
  assumes "apiInfo t \<notin> apiInfo ` set ts"
    and "parseExternalApiInfo (apiInfo t) = Inr (pkg, ty, mn, mp)"
  shows "groupOf (ts @ [t]) (apiInfo t)
     \<lparr>externalApiInfo = apiInfo t, packageName = pkg, typeName = ty,
      methodName = mn, methodParameters = mp, supported = apiSupported t,
      usages = [apiUsage t]\<rparr>"
  using assms by (simp add: groupOf_def occurrences_def find_snoc find_None_notin filter_notin)

lemma groupedUpTo_pushUsage:
  assumes "\<forall>(k, v) \<in> set m. groupOf ts k v"
  shows "\<forall>(k, v) \<in> set (pushUsage m (apiInfo t) (apiUsage t)). groupOf (ts @ [t]) k v"
  using assms
proof (induction m)
  case Nil
  then show ?case by (simp add: pushUsage_def)
next
  case (Cons e m)
  obtain k v where e: "e = (k, v)" by (cases e)
  have tl: "\<forall>(k, v) \<in> set (pushUsage m (apiInfo t) (apiUsage t)). groupOf (ts @ [t]) k v"
    using Cons by simp
  have hd: "groupOf ts k v" using Cons.prems e by simp
  show ?case
  proof (cases "k = apiInfo t")
    case True
    have "pushUsage (e # m) (apiInfo t) (apiUsage t) =
        (k, v\<lparr>usages := usages v @ [apiUsage t]\<rparr>) # pushUsage m (apiInfo t) (apiUsage t)"
      using True e by (simp add: pushUsage_def)
    then show ?thesis using tl groupOf_snoc_same[OF hd True] by simp
  next
    case False
    have "pushUsage (e # m) (apiInfo t) (apiUsage t) =
        (k, v) # pushUsage m (apiInfo t) (apiUsage t)"
      using False e by (simp add: pushUsage_def)
    then show ?thesis using tl groupOf_snoc_other[OF hd False] by simp
  qed
qed

lemma groupedUpTo_addTuple:
  assumes g: "groupedUpTo ts m" and a: "addTuple t m = Inr m'"
  shows "groupedUpTo (ts @ [t]) m'"
proof -
  obtain pkg ty mn mp where p: "parseExternalApiInfo (apiInfo t) = Inr (pkg, ty, mn, mp)"
    using a by (auto simp: addTuple_def split: sum.splits)
  have keys: "fst ` set m = apiInfo ` set ts" using g by (rule groupedUpTo_keys)
  have gm: "\<forall>(k, v) \<in> set m. groupOf ts k v" using g by (simp add: groupedUpTo_def)
  have fm: "map fst m = firstOccurrences (map apiInfo ts)" using g by (simp add: groupedUpTo_def)
  show ?thesis
  proof (cases "has m (apiInfo t)")
    case True
    then have m': "m' = pushUsage m (apiInfo t) (apiUsage t)"
      using a p by (simp add: addTuple_def)
    have in_ts: "apiInfo t \<in> apiInfo ` set ts" using True keys by (simp add: has_def)
    have 1: "map fst m' = firstOccurrences (map apiInfo (ts @ [t]))"
      using fm in_ts by (simp add: m' firstOccurrences_snoc)
    show ?thesis unfolding groupedUpTo_def using 1 groupedUpTo_pushUsage[OF gm, of t] m' by blast
  next
    case False
    let ?new = "\<lparr>externalApiInfo = apiInfo t, packageName = pkg, typeName = ty,
                  methodName = mn, methodParameters = mp, supported = apiSupported t,
                  usages = []\<rparr>"
    let ?new1 = "\<lparr>externalApiInfo = apiInfo t, packageName = pkg, typeName = ty,
                  methodName = mn, methodParameters = mp, supported = apiSupported t,
                  usages = [apiUsage t]\<rparr>"
    have notin: "apiInfo t \<notin> apiInfo ` set ts" using False keys by (simp add: has_def)
    have "m' = pushUsage (m @ [(apiInfo t, ?new)]) (apiInfo t) (apiUsage t)"
      using a p False by (simp add: addTuple_def set'_def)
    then have m': "m' = pushUsage m (apiInfo t) (apiUsage t) @ [(apiInfo t, ?new1)]"
      by (simp add: pushUsage_def)
    have 1: "map fst m' = firstOccurrences (map apiInfo (ts @ [t]))"
      using fm notin by (simp add: m' firstOccurrences_snoc)
    have 2: "\<forall>(k, v) \<in> set m'. groupOf (ts @ [t]) k v"
      using groupedUpTo_pushUsage[OF gm, of t] groupOf_new[OF notin p] by (simp add: m')
    show ?thesis unfolding groupedUpTo_def using 1 2 by blast
  qed
qed

lemma forEach_snoc:
  "forEach (ts @ [t]) m = (case forEach ts m of Inl e \<Rightarrow> Inl e | Inr m' \<Rightarrow> addTuple t m')"
  by (induction ts arbitrary: m) (auto split: sum.splits)

lemma forEach_grouped: "forEach ts [] = Inr m \<Longrightarrow> groupedUpTo ts m"
proof (induction ts arbitrary: m rule: rev_induct)
  case Nil
  then show ?case by (simp add: groupedUpTo_def)
next
  case (snoc t ts)
  then obtain m0 where "forEach ts [] = Inr m0" "addTuple t m0 = Inr m"
    by (auto simp: forEach_snoc split: sum.splits)
  then show ?case using snoc.IH groupedUpTo_addTuple by blast
qed

lemma addTuple_ok_iff: "(\<exists>m'. addTuple t m = Inr m') \<longleftrightarrow> CHR ''#'' \<in> set (apiInfo t)"
proof -
  have "(\<exists>r. parseExternalApiInfo (apiInfo t) = Inr r) \<longleftrightarrow> (\<exists>a b r. split (apiInfo t) (CHR ''#'') = a # b # r)"
    by (auto simp: parseExternalApiInfo_def split: list.splits)
  then have "(\<exists>r. parseExternalApiInfo (apiInfo t) = Inr r) \<longleftrightarrow> CHR ''#'' \<in> set (apiInfo t)"
    by (simp add: split_two_iff)
  moreover have "(\<exists>m'. addTuple t m = Inr m') \<longleftrightarrow> (\<exists>r. parseExternalApiInfo (apiInfo t) = Inr r)"
    by (auto simp: addTuple_def Let_def split: sum.splits)
  ultimately show ?thesis by simp
qed

lemma forEach_ok_iff:
  "(\<exists>m'. forEach ts m = Inr m') \<longleftrightarrow> (\<forall>t \<in> set ts. CHR ''#'' \<in> set (apiInfo t))"
proof (induction ts arbitrary: m)
  case Nil
  then show ?case by simp
next
  case (Cons t ts)
  show ?case
  proof (cases "addTuple t m")
    case (Inl e)
    then have "CHR ''#'' \<notin> set (apiInfo t)" using addTuple_ok_iff[of t m] by simp
    then show ?thesis using Inl by simp
  next
    case (Inr m1)
    then have "CHR ''#'' \<in> set (apiInfo t)" using addTuple_ok_iff[of t m] by auto
    then show ?thesis using Inr Cons.IH[of m1] by simp
  qed
qed

lemma methods_Some_grouped:
  assumes "methods (Some r) = Inr ms"
  shows "\<exists>g. groupedUpTo (tuples r) g \<and> ms = sortByUsages (map snd g)"
proof -
  obtain g where g: "forEach (tuples r) [] = Inr g" and ms: "ms = sortByUsages (map snd g)"
    using assms by (auto simp: methods_def split: sum.splits)
  then show ?thesis using forEach_grouped by blast
qed

lemma grouped_entry:
  assumes "groupedUpTo ts g" "m \<in> set (map snd g)"
  shows "groupOf ts (externalApiInfo m) m"
proof -
  obtain k where "(k, m) \<in> set g" using assms(2) by auto
  then have "groupOf ts k m" using assms(1) by (auto simp: groupedUpTo_def)
  then show ?thesis by (simp add: groupOf_def)
qed

lemma grouped_infos:
  assumes "groupedUpTo ts g"
  shows "map externalApiInfo (map snd g) = firstOccurrences (map apiInfo ts)"
proof -
  have "\<forall>(k, v) \<in> set g. externalApiInfo v = k"
    using assms by (auto simp: groupedUpTo_def groupOf_def)
  then have "map (externalApiInfo \<circ> snd) g = map fst g"
    by (intro map_cong) auto
  moreover have "map fst g = firstOccurrences (map apiInfo ts)"
    using assms by (simp add: groupedUpTo_def)
  ultimately show ?thesis by simp
qed

lemma grouped_filter_by_count:
  assumes "\<forall>(k, v) \<in> set g. groupOf ts k v"
  shows "map externalApiInfo (filter (\<lambda>m. length (usages m) = n) (map snd g)) =
         filter (\<lambda>k. length (occurrences ts k) = n) (map fst g)"
  using assms
proof (induction g)
  case Nil
  then show ?case by simp
next
  case (Cons e g)
  obtain k v where e: "e = (k, v)" by (cases e)
  have "groupOf ts k v" using Cons.prems e by simp
  then have kv: "externalApiInfo v = k" "length (usages v) = length (occurrences ts k)"
    by (simp_all add: groupOf_def occurrences_def)
  show ?case using Cons e kv by simp
qed

lemma sortByUsages_sorted:
  "sorted_wrt (\<lambda>a b. length (usages b) \<le> length (usages a)) (sortByUsages xs)"
proof -
  have "sorted (map (\<lambda>a. - int (length (usages a))) (sortByUsages xs))"
    unfolding sortByUsages_def by (rule sorted_sort_key)
  then show ?thesis by (simp add: sorted_map)
qed

lemma sortByUsages_stable:
  "filter (\<lambda>m. length (usages m) = n) (sortByUsages xs) = filter (\<lambda>m. length (usages m) = n) xs"
proof -
  have "filter (\<lambda>y. - int (length (usages y)) = - int n) (sortByUsages xs) =
        filter (\<lambda>y. - int (length (usages y)) = - int n) xs"
    unfolding sortByUsages_def by (rule sort_key_stable)
  then show ?thesis by simp
qed

lemma distinct_map_sortByUsages:
  "distinct (map f (sortByUsages xs)) \<longleftrightarrow> distinct (map f xs)"
  by (simp add: sortByUsages_def distinct_map)

section \<open>The aggregation groups by signature and sorts by usage count\<close>

text \<open>
  Claim C6. When every signature has a \<open>#\<close>, \<open>methods\<close> returns a list with one record
  for each signature of the input. The record of a signature carries the calls of all
  tuples with that signature, in input order, and the \<open>supported\<close> flag of the first of
  them. The list is in descending order of the number of usages, and the records with
  the same number of usages stand in the order in which their signatures first occur in
  the input.
\<close>

theorem methods_groups_by_signature:
  assumes "\<forall>t \<in> set (tuples results). CHR ''#'' \<in> set (apiInfo t)"
  shows "\<exists>ms. methods (Some results) = Inr ms \<and>
     distinct (map externalApiInfo ms) \<and>
     set (map externalApiInfo ms) = apiInfo ` set (tuples results) \<and>
     (\<forall>m \<in> set ms.
        usages m = map apiUsage (occurrences (tuples results) (externalApiInfo m)) \<and>
        (\<exists>t. find (\<lambda>t. apiInfo t = externalApiInfo m) (tuples results) = Some t \<and>
             supported m = apiSupported t)) \<and>
     sorted_wrt (\<lambda>a b. length (usages b) \<le> length (usages a)) ms \<and>
     (\<forall>n. map externalApiInfo (filter (\<lambda>m. length (usages m) = n) ms) =
          filter (\<lambda>k. length (occurrences (tuples results) k) = n)
            (firstOccurrences (map apiInfo (tuples results))))"
proof -
  let ?ts = "tuples results"
  obtain g where fe: "forEach ?ts [] = Inr g" using assms forEach_ok_iff[of ?ts "[]"] by blast
  let ?ms = "sortByUsages (map snd g)"
  have ms: "methods (Some results) = Inr ?ms" using fe by (simp add: methods_def)
  have gr: "groupedUpTo ?ts g" using fe by (rule forEach_grouped)
  have infos: "map externalApiInfo (map snd g) = firstOccurrences (map apiInfo ?ts)"
    using gr by (rule grouped_infos)
  have "distinct (map externalApiInfo (map snd g))" using infos by simp
  then have d: "distinct (map externalApiInfo ?ms)"
    by (simp only: distinct_map_sortByUsages)
  have "set (map externalApiInfo (map snd g)) = apiInfo ` set ?ts" using infos by simp
  then have s: "set (map externalApiInfo ?ms) = apiInfo ` set ?ts"
    by (simp add: sortByUsages_def image_image)
  have e: "\<forall>m \<in> set ?ms.
        usages m = map apiUsage (occurrences ?ts (externalApiInfo m)) \<and>
        (\<exists>t. find (\<lambda>t. apiInfo t = externalApiInfo m) ?ts = Some t \<and>
             supported m = apiSupported t)"
  proof
    fix m assume "m \<in> set ?ms"
    then have "m \<in> set (map snd g)" by (simp add: sortByUsages_def)
    then have "groupOf ?ts (externalApiInfo m) m" using gr grouped_entry by blast
    then show "usages m = map apiUsage (occurrences ?ts (externalApiInfo m)) \<and>
        (\<exists>t. find (\<lambda>t. apiInfo t = externalApiInfo m) ?ts = Some t \<and>
             supported m = apiSupported t)"
      by (simp add: groupOf_def occurrences_def)
  qed
  have st: "\<forall>n. map externalApiInfo (filter (\<lambda>m. length (usages m) = n) ?ms) =
          filter (\<lambda>k. length (occurrences ?ts k) = n) (firstOccurrences (map apiInfo ?ts))"
  proof
    fix n
    have "\<forall>(k, v) \<in> set g. groupOf ?ts k v" using gr by (simp add: groupedUpTo_def)
    then have "map externalApiInfo (filter (\<lambda>m. length (usages m) = n) (map snd g)) =
         filter (\<lambda>k. length (occurrences ?ts k) = n) (map fst g)"
      by (rule grouped_filter_by_count)
    moreover have "map fst g = firstOccurrences (map apiInfo ?ts)"
      using gr by (simp add: groupedUpTo_def)
    ultimately show "map externalApiInfo (filter (\<lambda>m. length (usages m) = n) ?ms) =
          filter (\<lambda>k. length (occurrences ?ts k) = n) (firstOccurrences (map apiInfo ?ts))"
      by (simp add: sortByUsages_stable)
  qed
  show ?thesis using ms d s e sortByUsages_sorted[of "map snd g"] st by blast
qed

lemma split_piece_subset: "x \<in> set (split s c) \<Longrightarrow> set x \<subseteq> set s"
proof (induction s arbitrary: x)
  case Nil
  then show ?case by simp
next
  case (Cons a s)
  show ?case
  proof (cases "a = c")
    case True
    then show ?thesis using Cons by auto
  next
    case False
    obtain p ps where sp: "split s c = p # ps" using split_not_Nil[of s c] by (cases "split s c") auto
    then have "x = a # p \<or> x \<in> set ps" using Cons.prems False by simp
    moreover have "set p \<subseteq> set s" using Cons.IH[of p] sp by simp
    moreover have "x \<in> set ps \<Longrightarrow> set x \<subseteq> set s" using Cons.IH[of x] sp by simp
    ultimately show ?thesis by auto
  qed
qed

lemma substring_absent: "substring s 0 (- 1) = []"
  by (simp add: substring_def Let_def)

lemma parse_no_paren:
  assumes "parseExternalApiInfo k = Inr (p, t, m, ps)" "CHR ''('' \<notin> set k"
  shows "m = []"
proof -
  obtain a b r where sp: "split k (CHR ''#'') = a # b # r"
    using assms(1) by (auto simp: parseExternalApiInfo_def split: list.splits)
  then have "set b \<subseteq> set k" using split_piece_subset[of b k "CHR ''#''"] by simp
  then have "indexOf b (CHR ''('') = - 1" using assms(2) by (auto simp: indexOf_def)
  then show ?thesis using assms(1) sp by (simp add: parseExternalApiInfo_def substring_absent)
qed

lemma parse_no_dot:
  assumes "parseExternalApiInfo k = Inr (p, t, m, ps)" "CHR ''.'' \<notin> set k"
  shows "p = []"
proof -
  obtain a b r where sp: "split k (CHR ''#'') = a # b # r"
    using assms(1) by (auto simp: parseExternalApiInfo_def split: list.splits)
  then have "set a \<subseteq> set k" using split_piece_subset[of a k "CHR ''#''"] by simp
  then have "lastIndexOf a (CHR ''.'') = - 1" using assms(2) by (auto simp: lastIndexOf_def)
  then show ?thesis using assms(1) sp by (simp add: parseExternalApiInfo_def substring_absent)
qed

lemma methods_entry_parsed:
  assumes "methods (Some results) = Inr ms" "m \<in> set ms"
  shows "parseExternalApiInfo (externalApiInfo m) =
           Inr (packageName m, typeName m, methodName m, methodParameters m)"
proof -
  obtain g where g: "groupedUpTo (tuples results) g" "ms = sortByUsages (map snd g)"
    using assms(1) methods_Some_grouped by blast
  then have "m \<in> set (map snd g)" using assms(2) by (simp add: sortByUsages_def)
  then have "groupOf (tuples results) (externalApiInfo m) m" using g(1) grouped_entry by blast
  then show ?thesis by (simp add: groupOf_def)
qed

lemma addTuple_error: "addTuple t m = Inl e \<Longrightarrow> e = TypeError"
  by (auto simp: addTuple_def parseExternalApiInfo_def Let_def split: sum.splits list.splits)

lemma forEach_error: "forEach ts m = Inl e \<Longrightarrow> e = TypeError"
  by (induction ts arbitrary: m) (auto split: sum.splits dest: addTuple_error)

lemma methods_error: "methods results = Inl e \<Longrightarrow> e = TypeError"
  by (auto simp: methods_def split: sum.splits option.splits dest: forEach_error)

lemma methods_ok_iff:
  "(\<exists>ms. methods (Some results) = Inr ms) \<longleftrightarrow>
   (\<forall>t \<in> set (tuples results). CHR ''#'' \<in> set (apiInfo t))"
proof -
  have "(\<exists>ms. methods (Some results) = Inr ms) \<longleftrightarrow> (\<exists>g. forEach (tuples results) [] = Inr g)"
    by (auto simp: methods_def split: sum.splits)
  then show ?thesis by (simp add: forEach_ok_iff)
qed

section \<open>Parsing a signature\<close>

text \<open>
  Claim C8. A signature \<open>package.Type#method(params)\<close>, where \<open>#\<close> occurs once, the type
  has no dot and the method name no opening parenthesis, is taken apart at the last
  dot before the \<open>#\<close> and at the first \<open>(\<close> after it: the package is what stands before
  that dot, the type what stands between the dot and the \<open>#\<close>, the method name what
  stands between the \<open>#\<close> and the first \<open>(\<close>, the parameters the rest from that \<open>(\<close> on.
  These are the fields of every record that \<open>methods\<close> returns for such a signature.
\<close>

theorem methods_parses_wellformed_signature:
  assumes "CHR ''#'' \<notin> set pkg" "CHR ''#'' \<notin> set ty" "CHR ''.'' \<notin> set ty"
    "CHR ''#'' \<notin> set mn" "CHR ''('' \<notin> set mn" "CHR ''#'' \<notin> set ps"
  shows "parseExternalApiInfo (pkg @ ''.'' @ ty @ ''#'' @ mn @ ''('' @ ps) =
           Inr (pkg, ty, mn, ''('' @ ps) \<and>
         (methods (Some results) = Inr ms \<and> m \<in> set ms \<and>
            externalApiInfo m = pkg @ ''.'' @ ty @ ''#'' @ mn @ ''('' @ ps \<longrightarrow>
            packageName m = pkg \<and> typeName m = ty \<and> methodName m = mn \<and>
            methodParameters m = ''('' @ ps)"
proof -
  have p: "parseExternalApiInfo (pkg @ ''.'' @ ty @ ''#'' @ mn @ ''('' @ ps) =
           Inr (pkg, ty, mn, ''('' @ ps)"
    using assms by (rule parse_wf)
  have "packageName m = pkg \<and> typeName m = ty \<and> methodName m = mn \<and>
            methodParameters m = ''('' @ ps"
    if "methods (Some results) = Inr ms" "m \<in> set ms"
       "externalApiInfo m = pkg @ ''.'' @ ty @ ''#'' @ mn @ ''('' @ ps"
    using methods_entry_parsed[OF that(1,2)] p that(3) by simp
  then show ?thesis using p by blast
qed

lemma methods_oneTuple_baz:
  "methods (Some (oneTuple ''com.foo.Bar#baz(int,int)'')) =
     Inr [usageOf ''com.foo.Bar#baz(int,int)'' ''com.foo'' ''Bar'' ''baz'' ''(int,int)'']"
  by code_simp

lemma methods_oneTuple_nodot:
  "methods (Some (oneTuple ''Bar#baz'')) = Inr [usageOf ''Bar#baz'' [] ''Bar'' [] ''baz'']"
  by code_simp

text \<open>
  The signature \<open>com.foo.Bar#baz(int,int)\<close>: package \<open>com.foo\<close>, type \<open>Bar\<close>, method
  \<open>baz\<close>, parameters \<open>(int,int)\<close>.
\<close>

theorem methods_parses_wellformed_signature_witness:
  "parseExternalApiInfo ''com.foo.Bar#baz(int,int)'' =
     Inr (''com.foo'', ''Bar'', ''baz'', ''(int,int)'') \<and>
   methods (Some (oneTuple ''com.foo.Bar#baz(int,int)'')) =
     Inr [usageOf ''com.foo.Bar#baz(int,int)'' ''com.foo'' ''Bar'' ''baz'' ''(int,int)''] \<and>
   packageName (usageOf ''com.foo.Bar#baz(int,int)'' ''com.foo'' ''Bar'' ''baz'' ''(int,int)'') = ''com.foo''"
  using methods_parses_wellformed_signature
      [of "''com.foo''" "''Bar''" "''baz''" "''int,int)''"
          "oneTuple ''com.foo.Bar#baz(int,int)''"
          "[usageOf ''com.foo.Bar#baz(int,int)'' ''com.foo'' ''Bar'' ''baz'' ''(int,int)'']"
          "usageOf ''com.foo.Bar#baz(int,int)'' ''com.foo'' ''Bar'' ''baz'' ''(int,int)''"]
    methods_oneTuple_baz
  by (simp add: usageOf_def)

section \<open>When the aggregation raises\<close>

text \<open>
  Claim C10. \<open>methods\<close> returns a list exactly when every signature of the input has a
  \<open>#\<close>; it raises a \<open>TypeError\<close> exactly when some signature has none. A signature
  without \<open>(\<close> does not make it raise and gives an empty method name; a signature
  without a dot gives an empty package name.
\<close>

theorem methods_raises_iff_signature_without_hash:
  "((\<exists>ms. methods (Some results) = Inr ms) \<longleftrightarrow>
      (\<forall>t \<in> set (tuples results). CHR ''#'' \<in> set (apiInfo t))) \<and>
   (methods (Some results) = Inl TypeError \<longleftrightarrow>
      (\<exists>t \<in> set (tuples results). CHR ''#'' \<notin> set (apiInfo t))) \<and>
   (methods (Some results) = Inr ms \<and> m \<in> set ms \<and>
      CHR ''('' \<notin> set (externalApiInfo m) \<longrightarrow> methodName m = []) \<and>
   (methods (Some results) = Inr ms \<and> m \<in> set ms \<and>
      CHR ''.'' \<notin> set (externalApiInfo m) \<longrightarrow> packageName m = [])"
proof -
  have ok: "(\<exists>ms. methods (Some results) = Inr ms) \<longleftrightarrow>
      (\<forall>t \<in> set (tuples results). CHR ''#'' \<in> set (apiInfo t))"
    by (rule methods_ok_iff)
  have "methods (Some results) = Inl TypeError \<longleftrightarrow> \<not> (\<exists>ms. methods (Some results) = Inr ms)"
    using methods_error[of "Some results"] by (cases "methods (Some results)") auto
  then have err: "methods (Some results) = Inl TypeError \<longleftrightarrow>
      (\<exists>t \<in> set (tuples results). CHR ''#'' \<notin> set (apiInfo t))"
    using ok by simp
  have np: "methodName m = []"
    if "methods (Some results) = Inr ms" "m \<in> set ms" "CHR ''('' \<notin> set (externalApiInfo m)"
    using parse_no_paren[OF methods_entry_parsed[OF that(1,2)] that(3)] .
  have nd: "packageName m = []"
    if "methods (Some results) = Inr ms" "m \<in> set ms" "CHR ''.'' \<notin> set (externalApiInfo m)"
    using parse_no_dot[OF methods_entry_parsed[OF that(1,2)] that(3)] .
  show ?thesis using ok err np nd by blast
qed

text \<open>
  The signature \<open>com.foo.Bar\<close> makes the aggregation raise; \<open>Bar#baz\<close>, with neither dot
  nor parenthesis, gives a record with empty package and method names.
\<close>

theorem methods_raises_iff_signature_without_hash_witness:
  "methods (Some (oneTuple ''com.foo.Bar'')) = Inl TypeError \<and>
   methods (Some (oneTuple ''Bar#baz'')) = Inr [usageOf ''Bar#baz'' [] ''Bar'' [] ''baz''] \<and>
   methodName (usageOf ''Bar#baz'' [] ''Bar'' [] ''baz'') = [] \<and>
   packageName (usageOf ''Bar#baz'' [] ''Bar'' [] ''baz'') = []"
proof -
  have "methods (Some (oneTuple ''com.foo.Bar'')) = Inl TypeError"
    using methods_raises_iff_signature_without_hash [of "oneTuple ''com.foo.Bar''"]
    by (simp add: oneTuple_def)
  moreover have "methodName (usageOf ''Bar#baz'' [] ''Bar'' [] ''baz'') = [] \<and>
      packageName (usageOf ''Bar#baz'' [] ''Bar'' [] ''baz'') = []"
    using methods_raises_iff_signature_without_hash
      [of "oneTuple ''Bar#baz''" "[usageOf ''Bar#baz'' [] ''Bar'' [] ''baz'']"
          "usageOf ''Bar#baz'' [] ''Bar'' [] ''baz''"]
      methods_oneTuple_nodot
    by (simp add: usageOf_def)
  ultimately show ?thesis using methods_oneTuple_nodot by simp
qed

text \<open>
  On the sample input the signature \<open>a.C#m()\<close> occurs twice and comes first; \<open>a.B#m()\<close>
  and \<open>a.D#m()\<close> occur once each and keep their input order.
\<close>

theorem methods_groups_by_signature_witness:
  "\<exists>ms. methods (Some exampleResults) = Inr ms \<and>
     distinct (map externalApiInfo ms) \<and>
     sorted_wrt (\<lambda>a b. length (usages b) \<le> length (usages a)) ms \<and>
     map externalApiInfo (filter (\<lambda>m. length (usages m) = 1) ms) = [''a.B#m()'', ''a.D#m()''] \<and>
     map externalApiInfo (filter (\<lambda>m. length (usages m) = 2) ms) = [''a.C#m()'']"
proof -
  have h: "\<forall>t \<in> set (tuples exampleResults). CHR ''#'' \<in> set (apiInfo t)"
    by (simp add: exampleResults_def)
  have f1: "filter (\<lambda>k. length (occurrences (tuples exampleResults) k) = 1)
            (firstOccurrences (map apiInfo (tuples exampleResults))) = [''a.B#m()'', ''a.D#m()'']"
    by (simp add: exampleResults_def occurrences_def)
  have f2: "filter (\<lambda>k. length (occurrences (tuples exampleResults) k) = 2)
            (firstOccurrences (map apiInfo (tuples exampleResults))) = [''a.C#m()'']"
    by (simp add: exampleResults_def occurrences_def)
  show ?thesis
    using methods_groups_by_signature [OF h] f1 f2 by metis
qed

section \<open>Merging the persisted model into the local one\<close>

text \<open>
  Against claim C1 as stated. The signature \<open>S\<close> is modeled as a sink in the persisted
  document and as a summary in the local state; after \<open>setExistingYamlData\<close> the entry of
  \<open>S\<close> is not the persisted one.
\<close>

theorem setExistingYamlData_loaded_entry_not_kept:
  "persistedSink () ''S'' = Some \<lparr>type = ''sink'', input = ''Argument[0]'', output' = []\<rparr> \<and>
   localSummary ''S'' = Some \<lparr>type = ''summary'', input = ''Argument[0]'', output' = ''ReturnValue''\<rparr> \<and>
   setExistingYamlData persistedSink () localSummary ''S'' \<noteq> persistedSink () ''S''"
  by (simp add: setExistingYamlData_def persistedSink_def localSummary_def)

text \<open>
  Claim C1, amended. After \<open>setExistingYamlData\<close> a signature held locally keeps its
  local entry, whether or not the loaded document has one for it; a signature not held
  locally gets the entry of the loaded document.
\<close>

theorem setExistingYamlData_local_entry_wins:
  "setExistingYamlData loadDataExtensionYaml data oldModeledMethods k =
     (case oldModeledMethods k of
        Some v \<Rightarrow> Some v
      | None \<Rightarrow> loadDataExtensionYaml data k)"
  by (simp add: setExistingYamlData_def map_add_def)

section \<open>Interpreted results\<close>

text \<open>The model gives what the test expects in each of its six cases.\<close>

lemma canHaveInterpretedResults_meets_expectations:
  "list_all (\<lambda>(md, f, c, e). canHaveInterpretedResults md f c = e) interpretedResultsExpectations"
  by (simp add: interpretedResultsExpectations_def canHaveInterpretedResults_def metadataKind_def)

text \<open>
  Against claim C2 as stated. With the metadata file present and the canary unset, kind
  \<open>"table"\<close> gives false, as the test expects, while the claimed condition (metadata
  file, a defined kind, and kind other than \<open>"graph"\<close> or canary set) holds.
\<close>

theorem canHaveInterpretedResults_table_is_false:
  "\<not> (canHaveInterpretedResults (Some \<lparr>kind' = Some ''table''\<rparr>) True False \<longleftrightarrow>
        (True \<and> metadataKind (Some \<lparr>kind' = Some ''table''\<rparr>) \<noteq> None \<and>
         (metadataKind (Some \<lparr>kind' = Some ''table''\<rparr>) \<noteq> Some ''graph'' \<or> False)))"
  by (simp add: canHaveInterpretedResults_def metadataKind_def)

text \<open>
  Claim C2, amended. \<open>canHaveInterpretedResults\<close> is true exactly when the database has
  a metadata file, the kind is defined and is not \<open>"table"\<close>, and the kind is not
  \<open>"graph"\<close> or the canary flag is set.
\<close>

theorem canHaveInterpretedResults_iff:
  "canHaveInterpretedResults md hasFile canary \<longleftrightarrow>
     hasFile \<and> (\<exists>k. metadataKind md = Some k \<and> k \<noteq> ''table'' \<and> (k \<noteq> ''graph'' \<or> canary))"
  by (auto simp: canHaveInterpretedResults_def split: option.splits)

text \<open>Kind \<open>"problem"\<close> gives true; kind \<open>"graph"\<close> gives the canary flag.\<close>

theorem canHaveInterpretedResults_iff_witness:
  "canHaveInterpretedResults (Some \<lparr>kind' = Some ''problem''\<rparr>) True False \<and>
   \<not> canHaveInterpretedResults (Some \<lparr>kind' = Some ''graph''\<rparr>) True False \<and>
   canHaveInterpretedResults (Some \<lparr>kind' = Some ''graph''\<rparr>) True True"
  using canHaveInterpretedResults_iff [of "Some \<lparr>kind' = Some ''problem''\<rparr>" True False]
    canHaveInterpretedResults_iff [of "Some \<lparr>kind' = Some ''graph''\<rparr>" True False]
    canHaveInterpretedResults_iff [of "Some \<lparr>kind' = Some ''graph''\<rparr>" True True]
  by (simp add: metadataKind_def)

section \<open>Compiling\<close>

text \<open>
  Against claim C3 as stated. The peer of the test answers with an error message and a
  warning message; \<open>compile\<close> returns the error message alone, not the message list of
  the answer.
\<close>

theorem compile_drops_warnings:
  "fst (compile createMockQueryInfo (createMockQueryServerClient False) mockQlProgram
          ''progress-monitor'' ''cancel-token'') =
     Inr [\<lparr>message = ''err'', severity = ERROR\<rparr>] \<and>
   fst (compile createMockQueryInfo (createMockQueryServerClient False) mockQlProgram
          ''progress-monitor'' ''cancel-token'') \<noteq>
     Inr (messages mockResponse)"
  by (simp add: compile_def sendRequest_def createMockQueryServerClient_def mockResponse_def Let_def)

text \<open>
  Claim C3, amended. \<open>compile\<close> sends exactly one request, a \<open>compileQuery\<close> request with
  the cancellation token and the progress sink. When the peer answers, it returns the
  messages of severity \<open>ERROR\<close> of the answer, in their order, and raises nothing
  whatever the messages are; when the request fails, the failure propagates.
\<close>

theorem compile_sends_one_request_returns_errors:
  "\<exists>r. requestType r = compileQuery \<and> token r = tok \<and> progress r = prog \<and>
       sent (snd (compile info qs program prog tok)) = sent qs @ [r] \<and>
       fst (compile info qs program prog tok) =
         (case backend qs r of
            Inl e \<Rightarrow> Inl e
          | Inr compiled \<Rightarrow> Inr (filter (\<lambda>msg. severity msg = ERROR) (messages compiled)))"
  by (simp add: compile_def sendRequest_def Let_def)

text \<open>
  On the client of the test the one request sent is the request the test expects
  \<open>sendRequest\<close> to have been called with.
\<close>

lemma compile_mock_request:
  "sent (snd (compile createMockQueryInfo (createMockQueryServerClient False) mockQlProgram
           ''progress-monitor'' ''cancel-token'')) =
     [\<lparr>requestType = compileQuery,
       params = CompileParams
         \<lparr>compilationOptions =
            \<lparr>computeNoLocationUrls = True, failOnWarnings = False, fastCompilation = False,
             includeDilInQlo = True, localChecking = False, noComputeGetUrl = False,
             noComputeToString = False, computeDefaultStrings = True, emitDebugInfo = True\<rparr>,
          timeoutSecs = 5,
          queryToCheck = mockQlProgram,
          resultPath = compiledQueryPath createMockQueryInfo,
          target = Query\<rparr>,
       token = ''cancel-token'',
       progress = ''progress-monitor''\<rparr>]"
  by (simp add: compile_def sendRequest_def createMockQueryServerClient_def Let_def)

section \<open>Registering and deregistering a database\<close>

text \<open>
  Claim C5. Without the capability \<open>supportsDatabaseRegistration\<close>, \<open>registerDatabase\<close> and
  \<open>deregisterDatabase\<close> return with the client unchanged: no request is sent. With it,
  each sends exactly one request, whose only database entry has the dataset path of
  the database as \<open>dbDir\<close> and \<open>"default"\<close> as \<open>workingSet\<close>.
\<close>

theorem register_deregister_gated_by_capability:
  "(\<not> supportsDatabaseRegistration qs \<longrightarrow>
      registerDatabase qs prog tok dbItem = (Inr (), qs) \<and>
      deregisterDatabase qs prog tok dbItem = (Inr (), qs)) \<and>
   (supportsDatabaseRegistration qs \<longrightarrow>
      sent (snd (registerDatabase qs prog tok dbItem)) =
        sent qs @ [\<lparr>requestType = registerDatabases,
                    params = DatabasesParams [\<lparr>dbDir = datasetUri dbItem, workingSet = ''default''\<rparr>],
                    token = tok, progress = prog\<rparr>] \<and>
      sent (snd (deregisterDatabase qs prog tok dbItem)) =
        sent qs @ [\<lparr>requestType = deregisterDatabases,
                    params = DatabasesParams [\<lparr>dbDir = datasetUri dbItem, workingSet = ''default''\<rparr>],
                    token = tok, progress = prog\<rparr>])"
  by (simp add: registerDatabase_def deregisterDatabase_def sendRequest_def Let_def)

text \<open>
  The clients of the test: without the capability nothing has been sent after
  \<open>registerDatabase\<close>; with it, \<open>deregisterDatabase\<close> has sent the one request the test
  expects.
\<close>

theorem register_deregister_gated_by_capability_witness:
  "sent (snd (registerDatabase (createMockQueryServerClient False) ''progress-monitor''
                ''cancel-token'' \<lparr>datasetUri = ''dataset-uri''\<rparr>)) = [] \<and>
   sent (snd (deregisterDatabase (createMockQueryServerClient True) ''progress-monitor''
                ''cancel-token'' \<lparr>datasetUri = ''dataset-uri''\<rparr>)) =
     [\<lparr>requestType = deregisterDatabases,
       params = DatabasesParams [\<lparr>dbDir = ''dataset-uri'', workingSet = ''default''\<rparr>],
       token = ''cancel-token'', progress = ''progress-monitor''\<rparr>]"
  using register_deregister_gated_by_capability
      [of "createMockQueryServerClient False" "''progress-monitor''" "''cancel-token''"
          "\<lparr>datasetUri = ''dataset-uri''\<rparr>"]
    register_deregister_gated_by_capability
      [of "createMockQueryServerClient True" "''progress-monitor''" "''cancel-token''"
          "\<lparr>datasetUri = ''dataset-uri''\<rparr>"]
  by (simp add: createMockQueryServerClient_def)

section \<open>No tuples\<close>

text \<open>
  Against claim C9 as stated. On the empty usage list the supported percentage is the
  unguarded quotient \<open>0 / 0\<close> times 100: its value is \<open>NaN\<close>, which is neither zero nor
  any other number, and so is the unsupported percentage.
\<close>

theorem supportedPercentage_empty_is_NaN:
  "supportedPercentage id ([] :: nat ExternalApiUsage list) = NaN \<and>
   supportedPercentage id ([] :: nat ExternalApiUsage list) \<noteq> Finite 0 \<and>
   unsupportedPercentage id ([] :: nat ExternalApiUsage list) = NaN \<and>
   unsupportedPercentage id ([] :: nat ExternalApiUsage list) \<noteq> Finite 0"
  by (simp add: supportedPercentage_def unsupportedPercentage_def divide_def times_def)

text \<open>
  Claim C9, amended. Without results, or with results that have no tuples, \<open>methods\<close>
  returns the empty list. The percentages divide without a guard: on the empty list
  both are \<open>NaN\<close>, and nothing is raised; on any other list they are the rounded
  quotient of the count by the length, times 100 and rounded. Only the rendering is
  guarded: the statistics are rendered exactly when the list is not empty.
\<close>

theorem percentages_unguarded:
  "methods (None :: 'call ApiTuple DecodedBqrsChunk option) = Inr [] \<and>
   methods (Some ((results :: 'call ApiTuple DecodedBqrsChunk)\<lparr>tuples := []\<rparr>)) = Inr [] \<and>
   supportedPercentage fl (ms :: 'call ExternalApiUsage list) =
     (if ms = [] then NaN
      else Finite (fl (fl (of_nat (length (filter (\<lambda>m. supported m) ms)) / of_nat (length ms))
                       * 100))) \<and>
   unsupportedPercentage fl ms =
     (if ms = [] then NaN
      else Finite (fl (fl (of_nat (length (filter (\<lambda>m. \<not> supported m) ms)) / of_nat (length ms))
                       * 100))) \<and>
   renderedStats fl ms =
     (if ms = [] then None else Some (supportedPercentage fl ms, unsupportedPercentage fl ms))"
  by (simp add: methods_def sortByUsages_def supportedPercentage_def unsupportedPercentage_def
      divide_def times_def renderedStats_def)

text \<open>
  Two supported methods out of three, with exact arithmetic for the rounding: the
  percentages are \<open>200/3\<close> and \<open>100/3\<close>, and they are rendered; on the empty list
  nothing is rendered.
\<close>

theorem percentages_unguarded_witness:
  "supportedPercentage id twoOfThree = Finite (200 / 3) \<and>
   unsupportedPercentage id twoOfThree = Finite (100 / 3) \<and>
   renderedStats id twoOfThree = Some (Finite (200 / 3), Finite (100 / 3)) \<and>
   renderedStats id ([] :: nat ExternalApiUsage list) = None"
  using percentages_unguarded [where fl = id and ms = twoOfThree and results = exampleResults]
    percentages_unguarded
      [where fl = id and ms = "[] :: nat ExternalApiUsage list" and results = exampleResults]
  by (simp add: twoOfThree_def usageOf_def)

section \<open>CSV export\<close>

text \<open>
  Claim C7. When the result has no result sets, \<open>exportCsvResults\<close> returns false, raises
  nothing and writes no file.
\<close>

theorem exportCsvResults_no_result_sets:
  "bqrsInfo cliServer = [] \<Longrightarrow> exportCsvResults cliServer selectQueryName = Some (Inr (False, None))"
  by (simp add: exportCsvResults_def chooseResultSet_def)

text \<open>The server of the test "no result sets".\<close>

theorem exportCsvResults_no_result_sets_witness:
  "exportCsvResults noResultSetsServer ''#select'' = Some (Inr (False, None))"
  using exportCsvResults_no_result_sets [of noResultSetsServer "''#select''"]
  by (simp add: noResultSetsServer_def)


lemma decodePages_last:
  assumes "next' (bqrsDecode cliServer resultSet offset) = None"
    and "formatRows (columns (bqrsDecode cliServer resultSet offset))
           (tuples (bqrsDecode cliServer resultSet offset)) = Inr rows"
  shows "decodePages cliServer resultSet offset out = Some (Inr (out @ rows))"
  using assms by (subst decodePages.simps) (simp add: Let_def)

lemma decodePages_more:
  assumes "next' (bqrsDecode cliServer resultSet offset) = Some n"
    and "formatRows (columns (bqrsDecode cliServer resultSet offset))
           (tuples (bqrsDecode cliServer resultSet offset)) = Inr rows"
  shows "decodePages cliServer resultSet offset out = decodePages cliServer resultSet n (out @ rows)"
  using assms by (subst decodePages.simps) (simp add: Let_def)

lemma chooseResultSet_Some:
  "resultSets \<noteq> [] \<Longrightarrow> \<exists>rs. chooseResultSet resultSets selectQueryName = Some rs"
  by (cases resultSets) (simp_all add: chooseResultSet_def)







text \<open>
  The two other exports of the tests give the files the tests expect: the two pages
  with different columns, and the page with characters to escape.
\<close>

lemma export_two_pages:
  "exportCsvResults (twoPageServer resultSetName) selectQueryName =
     Some (Inr (True, Some (''a,'' @ [dquote] @ ''b'' @ [dquote, newline] @
                            ''c,'' @ [dquote] @ ''d'' @ [dquote, newline] @
                            [dquote] @ ''a'' @ [dquote] @ '',b,c'' @ [newline])))"
proof -
  let ?cli = "twoPageServer resultSetName"
  obtain rs where rs: "chooseResultSet (bqrsInfo ?cli) selectQueryName = Some rs"
    using chooseResultSet_Some[of "bqrsInfo ?cli" selectQueryName]
    by (auto simp: twoPageServer_def)
  have "decodePages ?cli rs 0 [] = decodePages ?cli rs 1 ([] @ (''a,'' @ [dquote] @ ''b'' @ [dquote, newline] @
                            ''c,'' @ [dquote] @ ''d'' @ [dquote, newline]))"
    by (rule decodePages_more)
       (simp_all add: twoPageServer_def abcdPage_def notStringStringColumns_def
          formatRow_def formatCell_def stringify_def replaceAll_def dquote_def)
  also have "\<dots> = Some (Inr (([] @ (''a,'' @ [dquote] @ ''b'' @ [dquote, newline] @
                            ''c,'' @ [dquote] @ ''d'' @ [dquote, newline])) @
                            ([dquote] @ ''a'' @ [dquote] @ '',b,c'' @ [newline])))"
    by (rule decodePages_last)
       (simp_all add: twoPageServer_def secondPage_def formatRow_def formatCell_def
          stringify_def replaceAll_def dquote_def)
  finally show ?thesis using rs by (simp add: exportCsvResults_def)
qed

lemma export_escaping:
  "exportCsvResults (onePageServer resultSetName escapingPage) selectQueryName =
     Some (Inr (True, Some (
       [dquote] @ ''a'' @ [dquote] @ '','' @ [dquote, dquote, dquote] @ ''b'' @ [dquote, dquote, dquote, newline] @
       ''c,xxx,'' @ [dquote] @ ''d,yyy'' @ [dquote, newline] @
       ''aaa '' @ [dquote] @ '' bbb,'' @ [dquote] @ ''ccc '' @ [dquote, dquote] @ '' ddd'' @ [dquote, newline] @
       ''true,'' @ [dquote] @ ''false'' @ [dquote, newline] @
       ''123,'' @ [dquote] @ ''456'' @ [dquote, newline] @
       ''123.98,'' @ [dquote] @ ''456.99'' @ [dquote, newline])))"
proof -
  let ?cli = "onePageServer resultSetName escapingPage"
  obtain rs where rs: "chooseResultSet (bqrsInfo ?cli) selectQueryName = Some rs"
    using chooseResultSet_Some[of "bqrsInfo ?cli" selectQueryName]
    by (auto simp: onePageServer_def)
  have "decodePages ?cli rs 0 [] = Some (Inr ([] @ (
       [dquote] @ ''a'' @ [dquote] @ '','' @ [dquote, dquote, dquote] @ ''b'' @ [dquote, dquote, dquote, newline] @
       ''c,xxx,'' @ [dquote] @ ''d,yyy'' @ [dquote, newline] @
       ''aaa '' @ [dquote] @ '' bbb,'' @ [dquote] @ ''ccc '' @ [dquote, dquote] @ '' ddd'' @ [dquote, newline] @
       ''true,'' @ [dquote] @ ''false'' @ [dquote, newline] @
       ''123,'' @ [dquote] @ ''456'' @ [dquote, newline] @
       ''123.98,'' @ [dquote] @ ''456.99'' @ [dquote, newline])))"
    by (rule decodePages_last)
       (simp_all add: onePageServer_def escapingPage_def notStringStringColumns_def
          formatRow_def formatCell_def stringify_def replaceAll_def dquote_def)
  then show ?thesis using rs by (simp add: exportCsvResults_def)
qed

end
